theory Spec2Isabelle
  imports Complex_Main "HOL-Library.Multiset"
begin

section \<open>Strings\<close>

text \<open>
  A Python \<^verbatim>\<open>str\<close> is a sequence of Unicode code points, so it is modelled as a
  list of code points. The two currency literals of \<^verbatim>\<open>_preprocess\<close> are the code
  points U+00A3 (the pound sign) and U+00C2 U+00A3 (the pound sign as it reads after
  a UTF-8 text was decoded as Latin-1).
\<close>

type_synonym pystr = "nat list"

definition ascii :: "string \<Rightarrow> pystr" where
  "ascii s = map of_char s"

definition pound :: pystr where
  "pound = [163]"

definition pound_artifact :: pystr where
  "pound_artifact = [194, 163]"

text \<open>
  \<^verbatim>\<open>s.replace(old, new)\<close>: every non-overlapping occurrence of \<open>old\<close>, found from
  the left, is replaced. With an empty \<open>old\<close> Python puts \<open>new\<close> before every code
  point and at the end.
\<close>

function str_replace :: "'a list \<Rightarrow> 'a list \<Rightarrow> 'a list \<Rightarrow> 'a list" where
  "str_replace old new s =
     (if old = [] then
        (case s of [] \<Rightarrow> new | c # cs \<Rightarrow> new @ c # str_replace old new cs)
      else
        (case s of
           [] \<Rightarrow> []
         | c # cs \<Rightarrow>
             if take (length old) s = old
             then new @ str_replace old new (drop (length old) s)
             else c # str_replace old new cs))"
  by pat_completeness auto
termination
  by (relation "measure (\<lambda>(old, new, s). length s)") (auto simp: neq_Nil_conv)

declare str_replace.simps [simp del]

text \<open>The operator \<^verbatim>\<open>sub in s\<close> on strings.\<close>

fun str_in :: "'a list \<Rightarrow> 'a list \<Rightarrow> bool" where
  "str_in sub [] = (sub = [])"
| "str_in sub (c # cs) = (take (length sub) (c # cs) = sub \<or> str_in sub cs)"

text \<open>\<^verbatim>\<open>s.strip()\<close> removes the white space (as \<^verbatim>\<open>str.isspace\<close> knows it) at both ends.\<close>

definition py_isspace :: "nat \<Rightarrow> bool" where
  "py_isspace c =
     ((9 \<le> c \<and> c \<le> 13) \<or> (28 \<le> c \<and> c \<le> 32) \<or> c = 133 \<or> c = 160 \<or> c = 5760 \<or>
      (8192 \<le> c \<and> c \<le> 8202) \<or> c = 8232 \<or> c = 8233 \<or> c = 8239 \<or> c = 8287 \<or> c = 12288)"

definition str_strip :: "pystr \<Rightarrow> pystr" where
  "str_strip s = rev (dropWhile py_isspace (rev (dropWhile py_isspace s)))"

text \<open>\<^verbatim>\<open>str(i)\<close> on an integer, as the f-string of the page URL formats it.\<close>

function str_nat :: "nat \<Rightarrow> pystr" where
  "str_nat n = (if n < 10 then [48 + n] else str_nat (n div 10) @ [48 + n mod 10])"
  by pat_completeness auto
termination
  by (relation "measure id") auto

declare str_nat.simps [simp del]

definition str_int :: "int \<Rightarrow> pystr" where
  "str_int i = (if i < 0 then 45 # str_nat (nat (- i)) else str_nat (nat i))"

section \<open>Records of the scraper and of the analyzer\<close>

text \<open>The dictionary that \<^verbatim>\<open>scrape_books_from_page\<close> appends for one book.\<close>

record raw_book =
  title :: pystr
  price :: pystr
  availability :: pystr
  rating :: pystr
  url :: pystr

text \<open>
  A numeric cell of the data frame: a value or the missing value \<^verbatim>\<open>NaN\<close>. The type
  \<open>'p\<close> stands for the floats other than \<^verbatim>\<open>NaN\<close>, with their order; rounding is not
  modelled.
\<close>

datatype 'a cell = NaN | Val 'a

text \<open>A row of \<^verbatim>\<open>self.df\<close> after \<^verbatim>\<open>_preprocess\<close>: the raw columns and the two new ones.\<close>

record 'p df_row = raw_book +
  price_numeric :: "'p cell"
  rating_numeric :: "int cell"

datatype py_error = ValueError | IntegrityError | ExtractionError | OverflowError

section \<open>BookScraper\<close>

text \<open>
  The network and the HTML parser are outside the program; they are the two fields of
  \<open>web\<close>. \<open>requests_get\<close> is \<^verbatim>\<open>requests.get(url, headers=headers)\<close>: a response with
  its status code and text, or an exception. \<open>select_product_pods\<close> is
  \<^verbatim>\<open>BeautifulSoup(html, "html.parser").select("article.product_pod")\<close>. A \<open>pod\<close> holds what
  the loop body reads from one container, \<open>None\<close> where the element or the attribute is
  absent and the access raises.
\<close>

datatype http_result = Response int pystr | RequestException

record pod =
  h3_a_title :: "pystr option"
  price_color_text :: "pystr option"
  availability_text :: "pystr option"
  star_rating_class :: "pystr list option"
  h3_a_href :: "pystr option"

record web =
  requests_get :: "pystr \<Rightarrow> http_result"
  select_product_pods :: "pystr \<Rightarrow> pod list"

record BookScraper =
  base_url :: pystr
  books :: "raw_book list"

definition BookScraper_init :: BookScraper where
  "BookScraper_init = \<lparr>base_url = ascii ''http://books.toscrape.com/'', books = []\<rparr>"

text \<open>
  \<^verbatim>\<open>fetch_webpage\<close>: the text of a response with status 200, \<^verbatim>\<open>None\<close> otherwise. The
  second component is the list of the URLs requested so far, kept to state which pages
  a run asks for.
\<close>

definition fetch_webpage :: "web \<Rightarrow> pystr \<Rightarrow> pystr list \<Rightarrow> pystr option \<times> pystr list" where
  "fetch_webpage w u requested =
     (case requests_get w u of
        Response status_code text \<Rightarrow> (if status_code = 200 then Some text else None)
      | RequestException \<Rightarrow> None,
      requested @ [u])"

definition page_url :: "pystr \<Rightarrow> int \<Rightarrow> pystr" where
  "page_url base page_num = base @ ascii ''catalogue/page-'' @ str_int page_num @ ascii ''.html''"

text \<open>The body of the loop over the containers, up to the dictionary it appends.\<close>

definition extract_book :: "pystr \<Rightarrow> pod \<Rightarrow> py_error + raw_book" where
  "extract_book base b =
     (case h3_a_title b of
        None \<Rightarrow> Inl ExtractionError
      | Some t \<Rightarrow>
     (case price_color_text b of
        None \<Rightarrow> Inl ExtractionError
      | Some p \<Rightarrow>
     (case availability_text b of
        None \<Rightarrow> Inl ExtractionError
      | Some a \<Rightarrow>
     (case star_rating_class b of
        None \<Rightarrow> Inl ExtractionError
      | Some cls \<Rightarrow>
          if length cls < 2 then Inl ExtractionError
          else
     (case h3_a_href b of
        None \<Rightarrow> Inl ExtractionError
      | Some href \<Rightarrow>
          Inr \<lparr>title = t, price = p, availability = str_strip a, rating = cls ! 1,
               url = base @ (if \<not> str_in (ascii ''catalogue/'') href
                             then ascii ''catalogue/'' @ href else href)\<rparr>)))))"

fun append_books :: "pod list \<Rightarrow> BookScraper \<Rightarrow> py_error option \<times> BookScraper" where
  "append_books [] s = (None, s)"
| "append_books (b # rest) s =
     (case extract_book (base_url s) b of
        Inl e \<Rightarrow> (Some e, s)
      | Inr r \<Rightarrow> append_books rest (s\<lparr>books := books s @ [r]\<rparr>))"

text \<open>
  \<^verbatim>\<open>scrape_books_from_page\<close>: \<^verbatim>\<open>False\<close> when the page was not fetched (or its text is
  empty) or has no container, \<^verbatim>\<open>True\<close> after appending its books; an exception of the
  loop body leaves the books appended before it.
\<close>

definition scrape_books_from_page ::
  "web \<Rightarrow> int \<Rightarrow> BookScraper \<times> pystr list \<Rightarrow> (py_error + bool) \<times> BookScraper \<times> pystr list" where
  "scrape_books_from_page w page_num st =
     (case st of (s, requested) \<Rightarrow>
        (case fetch_webpage w (page_url (base_url s) page_num) requested of
           (html, requested') \<Rightarrow>
             (case html of
                None \<Rightarrow> (Inr False, s, requested')
              | Some h \<Rightarrow>
                  if h = [] then (Inr False, s, requested')
                  else (let container = select_product_pods w h in
                        if container = [] then (Inr False, s, requested')
                        else (case append_books container s of
                                (Some e, s') \<Rightarrow> (Inl e, s', requested')
                              | (None, s') \<Rightarrow> (Inr True, s', requested'))))))"

text \<open>The \<^verbatim>\<open>for\<close> loop of \<^verbatim>\<open>scrape_multiple_pages\<close> over the page numbers, with its
  \<^verbatim>\<open>break\<close>.\<close>

fun scrape_loop ::
  "web \<Rightarrow> int list \<Rightarrow> BookScraper \<times> pystr list \<Rightarrow> py_error option \<times> BookScraper \<times> pystr list" where
  "scrape_loop w [] st = (None, st)"
| "scrape_loop w (i # pages) st =
     (case scrape_books_from_page w i st of
        (Inl e, st') \<Rightarrow> (Some e, st')
      | (Inr ok, st') \<Rightarrow> if \<not> ok then (None, st') else scrape_loop w pages st')"

definition scrape_multiple_pages ::
  "web \<Rightarrow> int \<Rightarrow> BookScraper \<times> pystr list \<Rightarrow> (py_error + raw_book list) \<times> BookScraper \<times> pystr list" where
  "scrape_multiple_pages w num_pages st =
     (case scrape_loop w [1..num_pages] st of
        (Some e, st') \<Rightarrow> (Inl e, st')
      | (None, s', requested') \<Rightarrow> (Inr (books s'), s', requested'))"

section \<open>BookDataAnalyzer\<close>

text \<open>
  The two \<^verbatim>\<open>.str.replace(..., "", regex=False)\<close> of \<^verbatim>\<open>_preprocess\<close> on one price
  text: first the two code points of the artifact, then the pound sign.
\<close>

definition strip_currency :: "pystr \<Rightarrow> pystr" where
  "strip_currency s = str_replace pound [] (str_replace pound_artifact [] s)"

text \<open>
  \<^verbatim>\<open>.astype(float)\<close> converts the whole column and raises \<^verbatim>\<open>ValueError\<close> at the first
  text that \<^verbatim>\<open>float\<close> does not accept. The interpreter's \<^verbatim>\<open>float\<close> is the parameter
  \<open>to_float\<close>: \<open>None\<close> where it raises, \<open>Some NaN\<close> for a text such as \<^verbatim>\<open>"nan"\<close>.
\<close>

fun astype_float :: "(pystr \<Rightarrow> 'p cell option) \<Rightarrow> pystr list \<Rightarrow> py_error + 'p cell list" where
  "astype_float to_float [] = Inr []"
| "astype_float to_float (s # ss) =
     (case to_float s of
        None \<Rightarrow> Inl ValueError
      | Some v \<Rightarrow>
          (case astype_float to_float ss of
             Inl e \<Rightarrow> Inl e
           | Inr vs \<Rightarrow> Inr (v # vs)))"

text \<open>The dictionary \<^verbatim>\<open>rm\<close>, and \<^verbatim>\<open>Series.map(rm)\<close> on one token: a key that is
  missing gives \<^verbatim>\<open>NaN\<close>.\<close>

definition rm :: "(pystr \<times> int) list" where
  "rm = [(ascii ''One'', 1), (ascii ''Two'', 2), (ascii ''Three'', 3),
         (ascii ''Four'', 4), (ascii ''Five'', 5)]"

definition map_rating :: "pystr \<Rightarrow> int cell" where
  "map_rating tok = (case map_of rm tok of None \<Rightarrow> NaN | Some v \<Rightarrow> Val v)"

definition with_numeric :: "raw_book \<Rightarrow> 'p cell \<Rightarrow> 'p df_row" where
  "with_numeric b p =
     raw_book.extend b \<lparr>price_numeric = p, rating_numeric = map_rating (rating b)\<rparr>"

definition preprocess :: "(pystr \<Rightarrow> 'p cell option) \<Rightarrow> raw_book list \<Rightarrow> py_error + 'p df_row list" where
  "preprocess to_float df =
     (case astype_float to_float (map (\<lambda>b. strip_currency (price b)) df) of
        Inl e \<Rightarrow> Inl e
      | Inr ps \<Rightarrow> Inr (map2 with_numeric df ps))"

text \<open>
  \<^verbatim>\<open>BookDataAnalyzer(books_data=...)\<close>: an empty list leaves the empty frame; an
  exception of \<^verbatim>\<open>_preprocess\<close> is not caught on this path.
\<close>

definition BookDataAnalyzer_init :: "(pystr \<Rightarrow> 'p cell option) \<Rightarrow> raw_book list \<Rightarrow> py_error + 'p df_row list" where
  "BookDataAnalyzer_init to_float books_data =
     (if books_data \<noteq> [] then preprocess to_float books_data else Inr [])"

text \<open>
  The sorting routine of pandas is outside the program. Its sorter is a parameter;
  \<open>sorts_by le srt\<close> says what the library promises of it: the result is a
  rearrangement of the input that is ordered by \<open>le\<close>. \<^verbatim>\<open>sort_values\<close> (whose default
  is \<^verbatim>\<open>kind="quicksort"\<close>) promises no order among rows with equal keys.
\<close>

definition sorts_by :: "('a \<Rightarrow> 'a \<Rightarrow> bool) \<Rightarrow> ('a list \<Rightarrow> 'a list) \<Rightarrow> bool" where
  "sorts_by le srt = (\<forall>xs. mset (srt xs) = mset xs \<and> sorted_wrt le (srt xs))"

text \<open>A sorter by insertion that keeps rows with equal keys in their order.\<close>

fun insort_by :: "('a \<Rightarrow> 'a \<Rightarrow> bool) \<Rightarrow> 'a \<Rightarrow> 'a list \<Rightarrow> 'a list" where
  "insort_by le x [] = [x]"
| "insort_by le x (y # ys) = (if le x y then x # y # ys else y # insort_by le x ys)"

definition stable_sort_by :: "('a \<Rightarrow> 'a \<Rightarrow> bool) \<Rightarrow> 'a list \<Rightarrow> 'a list" where
  "stable_sort_by le xs = foldr (insort_by le) xs []"

text \<open>\<^verbatim>\<open>get_summary_stats\<close>: the dictionary it returns, as a list of its items. The
  reductions of pandas skip \<^verbatim>\<open>NaN\<close> and give \<^verbatim>\<open>NaN\<close> when nothing is left.\<close>

datatype stat_key = total_books | avg_price | min_price | max_price | avg_rating

datatype 'p stat_value = Count nat | Number "'p cell"

fun values_of :: "'a cell list \<Rightarrow> 'a list" where
  "values_of [] = []"
| "values_of (NaN # cs) = values_of cs"
| "values_of (Val v # cs) = v # values_of cs"

definition col_mean :: "'p::field cell list \<Rightarrow> 'p cell" where
  "col_mean cs =
     (case values_of cs of [] \<Rightarrow> NaN | v # vs \<Rightarrow> Val (sum_list (v # vs) / of_nat (length (v # vs))))"

definition col_min :: "'p::linorder cell list \<Rightarrow> 'p cell" where
  "col_min cs = (case values_of cs of [] \<Rightarrow> NaN | v # vs \<Rightarrow> Val (fold min vs v))"

definition col_max :: "'p::linorder cell list \<Rightarrow> 'p cell" where
  "col_max cs = (case values_of cs of [] \<Rightarrow> NaN | v # vs \<Rightarrow> Val (fold max vs v))"

definition get_summary_stats :: "'p::linordered_field df_row list \<Rightarrow> (stat_key \<times> 'p stat_value) list" where
  "get_summary_stats df =
     (if df = [] then [(total_books, Count 0)]
      else [(total_books, Count (length df)),
            (avg_price, Number (col_mean (map price_numeric df))),
            (min_price, Number (col_min (map price_numeric df))),
            (max_price, Number (col_max (map price_numeric df))),
            (avg_rating, Number (col_mean (map (\<lambda>r. map_cell of_int (rating_numeric r)) df)))])"






text \<open>
  An instance of \<open>to_float\<close> for evaluating examples: unsigned decimals of the form
  digits, or digits, a point and digits, read as exact rationals. \<^verbatim>\<open>float\<close> accepts
  these texts too and rejects the non-numeric ones used below.
\<close>

definition is_digit :: "nat \<Rightarrow> bool" where
  "is_digit c = (48 \<le> c \<and> c \<le> 57)"

definition digits_value :: "pystr \<Rightarrow> nat" where
  "digits_value ds = foldl (\<lambda>a c. 10 * a + (c - 48)) 0 ds"

definition decimal_float :: "pystr \<Rightarrow> rat cell option" where
  "decimal_float s =
     (let ip = takeWhile is_digit s in
      if ip = [] then None
      else (case dropWhile is_digit s of
              [] \<Rightarrow> Some (Val (of_nat (digits_value ip)))
            | c # fp \<Rightarrow>
                if c = 46 \<and> fp \<noteq> [] \<and> list_all is_digit fp
                then Some (Val (of_nat (digits_value (ip @ fp)) / 10 ^ length fp))
                else None))"

section \<open>BookDatabase\<close>

text \<open>
  A row of the table \<^verbatim>\<open>books\<close>. The columns \<^verbatim>\<open>price\<close> and \<^verbatim>\<open>rating\<close> are
  \<^verbatim>\<open>NOT NULL\<close>, so they hold a value, never \<^verbatim>\<open>NaN\<close> (which SQLite stores as NULL).
\<close>

record 'p book =
  col_id :: nat
  col_title :: pystr
  col_price :: 'p
  col_rating :: int
  col_availability :: pystr
  col_url :: pystr

text \<open>The table in insertion order, and the counter that \<^verbatim>\<open>AUTOINCREMENT\<close> keeps.\<close>

record 'p BookDatabase =
  books_table :: "'p book list"
  sqlite_sequence :: nat

text \<open>\<^verbatim>\<open>BookDatabase()\<close> removes the old file and creates the empty table.\<close>

definition BookDatabase_init :: "'p BookDatabase" where
  "BookDatabase_init = \<lparr>books_table = [], sqlite_sequence = 0\<rparr>"

definition next_rowid :: "'p BookDatabase \<Rightarrow> nat" where
  "next_rowid db = Suc (fold max (map col_id (books_table db)) (sqlite_sequence db))"

text \<open>
  The \<^verbatim>\<open>INSERT\<close> of one row. A \<^verbatim>\<open>NaN\<close> is bound as NULL and the \<^verbatim>\<open>NOT NULL\<close>
  constraint then raises \<^verbatim>\<open>sqlite3.IntegrityError\<close>; the table is unchanged.
\<close>

definition execute_insert :: "'p BookDatabase \<Rightarrow> 'p df_row \<Rightarrow> py_error + 'p BookDatabase" where
  "execute_insert db row =
     (case price_numeric row of
        NaN \<Rightarrow> Inl IntegrityError
      | Val p \<Rightarrow>
          (case rating_numeric row of
             NaN \<Rightarrow> Inl IntegrityError
           | Val r \<Rightarrow>
               Inr \<lparr>books_table = books_table db @
                      [\<lparr>col_id = next_rowid db, col_title = title row, col_price = p,
                        col_rating = r, col_availability = availability row,
                        col_url = url row\<rparr>],
                    sqlite_sequence = next_rowid db\<rparr>))"

text \<open>
  The loop of \<^verbatim>\<open>insert_books\<close>: \<open>existing\<close> is the set of titles read before the
  loop; an exception of the \<^verbatim>\<open>INSERT\<close> is caught and the row skipped.
\<close>

fun insert_loop :: "pystr set \<Rightarrow> 'p df_row list \<Rightarrow> nat \<times> 'p BookDatabase \<Rightarrow> nat \<times> 'p BookDatabase" where
  "insert_loop existing [] st = st"
| "insert_loop existing (row # rest) (cnt, db) =
     (if title row \<in> existing then insert_loop existing rest (cnt, db)
      else (case execute_insert db row of
              Inl e \<Rightarrow> insert_loop existing rest (cnt, db)
            | Inr db' \<Rightarrow> insert_loop existing rest (cnt + 1, db')))"

text \<open>
  \<^verbatim>\<open>insert_books\<close> returns nothing; the first component is the number it prints in
  \<^verbatim>\<open>"Inserted {count} new books."\<close>, \<open>None\<close> when the frame is empty and it returns
  before printing.
\<close>

definition insert_books :: "'p df_row list \<Rightarrow> 'p BookDatabase \<Rightarrow> nat option \<times> 'p BookDatabase" where
  "insert_books df db =
     (if df = [] then (None, db)
      else (let existing = set (map col_title (books_table db));
                (cnt, db') = insert_loop existing df (0, db)
            in (Some cnt, db')))"

text \<open>
  The query of the route \<^verbatim>\<open>search\<close>:
  \<^verbatim>\<open>SELECT id, title, price, rating, availability FROM books WHERE rating >= ? AND price <= ?
  ORDER BY rating DESC, price ASC\<close>, with the parameters \<open>(min_r, max_p)\<close>.
  \<^item> \<open>min_r\<close> comes from \<^verbatim>\<open>int(...)\<close>, an unbounded integer; \<^verbatim>\<open>sqlite3\<close> binds it as a signed
    64-bit integer and raises \<^verbatim>\<open>OverflowError\<close> outside that range, before the query runs.
    The route catches \<^verbatim>\<open>ValueError\<close> only.
  \<^item> \<open>max_p\<close> comes from \<^verbatim>\<open>float(...)\<close>: a value of \<open>'p\<close> (which stands for every float
    but \<^verbatim>\<open>NaN\<close>, the two infinities included) or \<^verbatim>\<open>NaN\<close>, which is bound as NULL and
    makes the comparison fail on every row.
  \<^item> The table is keyed by its rowid, the column \<^verbatim>\<open>id\<close>: a scan visits the rows in
    ascending id. SQLite's sorter is a merge sort that keeps rows which are equal on the
    terms of \<^verbatim>\<open>ORDER BY\<close> in the order of the scan.
\<close>

definition table_scan :: "'p BookDatabase \<Rightarrow> 'p book list" where
  "table_scan db = stable_sort_by (\<lambda>a b. col_id a \<le> col_id b) (books_table db)"

definition rating_desc_price_asc :: "'p::linorder book \<Rightarrow> 'p book \<Rightarrow> bool" where
  "rating_desc_price_asc a b =
     (col_rating b < col_rating a \<or> (col_rating a = col_rating b \<and> col_price a \<le> col_price b))"

definition where_clause :: "int \<Rightarrow> 'p::linorder cell \<Rightarrow> 'p book \<Rightarrow> bool" where
  "where_clause min_r max_p b =
     (min_r \<le> col_rating b \<and> (case max_p of NaN \<Rightarrow> False | Val m \<Rightarrow> col_price b \<le> m))"

definition select_columns :: "'p book \<Rightarrow> nat \<times> pystr \<times> 'p \<times> int \<times> pystr" where
  "select_columns b = (col_id b, col_title b, col_price b, col_rating b, col_availability b)"

definition search ::
  "int \<Rightarrow> 'p::linorder cell \<Rightarrow> 'p BookDatabase
    \<Rightarrow> py_error + (nat \<times> pystr \<times> 'p \<times> int \<times> pystr) list" where
  "search min_r max_p db =
     (if min_r < - (2 ^ 63) \<or> 2 ^ 63 - 1 < min_r then Inl OverflowError
      else Inr (map select_columns
                  (stable_sort_by rating_desc_price_asc
                     (filter (where_clause min_r max_p) (table_scan db)))))"

text \<open>
  The floats other than \<^verbatim>\<open>NaN\<close> as a type of their own, for examples with an infinite
  bound: the rationals between the two infinities.
\<close>

datatype xfloat = MinusInf | Finite rat | PlusInf

fun xfloat_le :: "xfloat \<Rightarrow> xfloat \<Rightarrow> bool" where
  "xfloat_le MinusInf y = True"
| "xfloat_le x PlusInf = True"
| "xfloat_le (Finite a) (Finite b) = (a \<le> b)"
| "xfloat_le x y = False"

instantiation xfloat :: linorder
begin

definition less_eq_xfloat :: "xfloat \<Rightarrow> xfloat \<Rightarrow> bool" where
  "less_eq_xfloat x y = xfloat_le x y"

definition less_xfloat :: "xfloat \<Rightarrow> xfloat \<Rightarrow> bool" where
  "less_xfloat x y = (xfloat_le x y \<and> \<not> xfloat_le y x)"

instance
proof
  fix x y z :: xfloat
  show "(x < y) = (x \<le> y \<and> \<not> y \<le> x)"
    by (simp add: less_xfloat_def less_eq_xfloat_def)
  show "x \<le> x"
    by (cases x) (simp_all add: less_eq_xfloat_def)
  show "x \<le> y \<Longrightarrow> y \<le> z \<Longrightarrow> x \<le> z"
    by (cases x; cases y; cases z) (simp_all add: less_eq_xfloat_def)
  show "x \<le> y \<Longrightarrow> y \<le> x \<Longrightarrow> x = y"
    by (cases x; cases y) (simp_all add: less_eq_xfloat_def)
  show "x \<le> y \<or> y \<le> x"
    by (cases x; cases y) (auto simp: less_eq_xfloat_def)
qed

end

section \<open>Example data\<close>

text \<open>
  The three books of the specification's examples (A: rating 5, price 15; B: rating 3,
  price 10; C: rating 4, price 18), as the scraper would hand them over, and further
  raw books for the error paths.
\<close>

definition raw_A :: raw_book where
  "raw_A = \<lparr>title = ascii ''A'', price = pound @ ascii ''15.00'',
     availability = ascii ''In stock'', rating = ascii ''Five'',
     url = ascii ''http://books.toscrape.com/catalogue/a.html''\<rparr>"

definition raw_B :: raw_book where
  "raw_B = \<lparr>title = ascii ''B'', price = pound_artifact @ ascii ''10.00'',
     availability = ascii ''In stock'', rating = ascii ''Three'',
     url = ascii ''http://books.toscrape.com/catalogue/b.html''\<rparr>"

definition raw_C :: raw_book where
  "raw_C = \<lparr>title = ascii ''C'', price = pound @ ascii ''18.00'',
     availability = ascii ''In stock'', rating = ascii ''Four'',
     url = ascii ''http://books.toscrape.com/catalogue/c.html''\<rparr>"

definition raw_lowercase_rating :: raw_book where
  "raw_lowercase_rating = \<lparr>title = ascii ''L'', price = pound @ ascii ''51.77'',
     availability = ascii ''In stock'', rating = ascii ''five'', url = ascii ''l.html''\<rparr>"

definition raw_bad_price :: raw_book where
  "raw_bad_price = \<lparr>title = ascii ''X'', price = pound @ ascii ''abc'',
     availability = ascii ''In stock'', rating = ascii ''One'', url = ascii ''x.html''\<rparr>"

definition raw_D :: raw_book where
  "raw_D = \<lparr>title = ascii ''D'', price = pound @ ascii ''15.00'',
     availability = ascii ''In stock'', rating = ascii ''Five'',
     url = ascii ''http://books.toscrape.com/catalogue/d.html''\<rparr>"

text \<open>The same books as rows of the analyzer's frame; D has the rating and the price of A.\<close>

definition row_A :: "'p::linordered_field df_row" where
  "row_A = with_numeric raw_A (Val 15)"

definition row_B :: "'p::linordered_field df_row" where
  "row_B = with_numeric raw_B (Val 10)"

definition row_C :: "'p::linordered_field df_row" where
  "row_C = with_numeric raw_C (Val 18)"

definition row_D :: "'p::linordered_field df_row" where
  "row_D = with_numeric raw_D (Val 15)"

text \<open>
  A site of three pages for the examples: page 1 lists A and B, page 2 lists C, page 3
  has no container; page 4 exists but is never reached. The second site answers no
  request.
\<close>

definition pod_A :: pod where
  "pod_A = \<lparr>h3_a_title = Some (ascii ''A''), price_color_text = Some (pound @ ascii ''15.00''),
     availability_text = Some (ascii ''  In stock  ''),
     star_rating_class = Some [ascii ''star-rating'', ascii ''Five''],
     h3_a_href = Some (ascii ''a.html'')\<rparr>"

definition pod_B :: pod where
  "pod_B = \<lparr>h3_a_title = Some (ascii ''B''), price_color_text = Some (pound_artifact @ ascii ''10.00''),
     availability_text = Some (ascii ''  In stock  ''),
     star_rating_class = Some [ascii ''star-rating'', ascii ''Three''],
     h3_a_href = Some (ascii ''b.html'')\<rparr>"

definition pod_C :: pod where
  "pod_C = \<lparr>h3_a_title = Some (ascii ''C''), price_color_text = Some (pound @ ascii ''18.00''),
     availability_text = Some (ascii ''In stock''),
     star_rating_class = Some [ascii ''star-rating'', ascii ''Four''],
     h3_a_href = Some (ascii ''catalogue/c.html'')\<rparr>"

definition example_web :: web where
  "example_web =
     \<lparr>requests_get = (\<lambda>u.
        if u = ascii ''http://books.toscrape.com/catalogue/page-1.html''
          then Response 200 (ascii ''page one'')
        else if u = ascii ''http://books.toscrape.com/catalogue/page-2.html''
          then Response 200 (ascii ''page two'')
        else if u = ascii ''http://books.toscrape.com/catalogue/page-3.html''
          then Response 200 (ascii ''no books'')
        else if u = ascii ''http://books.toscrape.com/catalogue/page-4.html''
          then Response 200 (ascii ''page one'')
        else Response 404 (ascii ''Not Found'')),
      select_product_pods = (\<lambda>h.
        if h = ascii ''page one'' then [pod_A, pod_B]
        else if h = ascii ''page two'' then [pod_C]
        else [])\<rparr>"

definition offline_web :: web where
  "offline_web = \<lparr>requests_get = (\<lambda>u. RequestException), select_product_pods = (\<lambda>h. [])\<rparr>"

section \<open>Notions used in the statements\<close>

text \<open>
  What the scraper finds at one page number: the fetch gave no text (an exception or a
  status other than 200), the page gave no container (or an empty text), every
  container gave a record, or a container lacks a sub-field and the loop body raises.
\<close>

datatype page_outcome = FetchFailed | NoRecords | Records "raw_book list" | Malformed

fun extract_all :: "pystr \<Rightarrow> pod list \<Rightarrow> raw_book list option" where
  "extract_all base [] = Some []"
| "extract_all base (b # rest) =
     (case extract_book base b of
        Inl e \<Rightarrow> None
      | Inr r \<Rightarrow> (case extract_all base rest of None \<Rightarrow> None | Some rs \<Rightarrow> Some (r # rs)))"

definition page_outcome :: "web \<Rightarrow> pystr \<Rightarrow> int \<Rightarrow> page_outcome" where
  "page_outcome w base i =
     (case requests_get w (page_url base i) of
        RequestException \<Rightarrow> FetchFailed
      | Response status_code text \<Rightarrow>
          if status_code \<noteq> 200 then FetchFailed
          else if text = [] then NoRecords
          else (case select_product_pods w text of
                  [] \<Rightarrow> NoRecords
                | b # rest \<Rightarrow>
                    (case extract_all base (b # rest) of
                       None \<Rightarrow> Malformed
                     | Some rs \<Rightarrow> Records rs)))"

fun records_of :: "page_outcome \<Rightarrow> raw_book list" where
  "records_of (Records rs) = rs"
| "records_of _ = []"

fun is_records :: "page_outcome \<Rightarrow> bool" where
  "is_records (Records rs) = True"
| "is_records _ = False"

fun is_stop :: "page_outcome \<Rightarrow> bool" where
  "is_stop FetchFailed = True"
| "is_stop NoRecords = True"
| "is_stop _ = False"

text \<open>The order by rating descending, then price ascending, then id ascending.\<close>

definition rating_price_id :: "'p::linorder book \<Rightarrow> 'p book \<Rightarrow> bool" where
  "rating_price_id a b =
     (col_rating b < col_rating a \<or>
      (col_rating a = col_rating b \<and>
       (col_price a < col_price b \<or> (col_price a = col_price b \<and> col_id a \<le> col_id b))))"

text \<open>Every rating in the table is an integer from 1 to 5.\<close>

definition ratings_ok :: "'p BookDatabase \<Rightarrow> bool" where
  "ratings_ok db = list_all (\<lambda>b. 1 \<le> col_rating b \<and> col_rating b \<le> 5) (books_table db)"

text \<open>A row that \<^verbatim>\<open>insert_books\<close> inserts when \<open>E\<close> is the set of titles it read.\<close>

definition insertable :: "pystr set \<Rightarrow> 'p df_row \<Rightarrow> bool" where
  "insertable E r = (title r \<notin> E \<and> price_numeric r \<noteq> NaN \<and> rating_numeric r \<noteq> NaN)"

section \<open>Lemmas on strings\<close>

lemma str_replace_Nil: "old \<noteq> [] \<Longrightarrow> str_replace old new [] = []"
  by (simp add: str_replace.simps)

lemma str_replace_Cons:
  "old \<noteq> [] \<Longrightarrow> str_replace old new (c # cs) =
     (if take (length old) (c # cs) = old
      then new @ str_replace old new (drop (length old) (c # cs))
      else c # str_replace old new cs)"
  by (subst str_replace.simps) simp

lemma str_replace_single: "str_replace [c] [] s = filter (\<lambda>x. x \<noteq> c) s"
  by (induction s) (auto simp: str_replace_Nil str_replace_Cons)

lemma str_replace_absent:
  assumes "old \<noteq> []" and "last old \<notin> set s"
  shows "str_replace old new s = s"
  using assms(2)
proof (induction s)
  case Nil
  then show ?case using assms(1) by (simp add: str_replace_Nil)
next
  case (Cons c cs)
  have "take (length old) (c # cs) \<noteq> old"
  proof
    assume "take (length old) (c # cs) = old"
    then have "set old \<subseteq> set (c # cs)" by (metis set_take_subset)
    moreover have "last old \<in> set old" using assms(1) by simp
    ultimately show False using Cons.prems by auto
  qed
  then show ?case using Cons assms(1) by (simp add: str_replace_Cons)
qed

lemma strip_currency_filter:
  "strip_currency s = filter (\<lambda>x. x \<noteq> 163) (str_replace pound_artifact [] s)"
  by (simp add: strip_currency_def pound_def str_replace_single)

lemma strip_currency_no_pound: "163 \<notin> set (strip_currency s)"
  by (simp add: strip_currency_filter)

lemma strip_currency_glyph_free: "163 \<notin> set s \<Longrightarrow> strip_currency s = s"
  by (auto simp: strip_currency_filter pound_artifact_def str_replace_absent filter_id_conv)

lemma strip_currency_idem: "strip_currency (strip_currency s) = strip_currency s"
  by (simp add: strip_currency_glyph_free strip_currency_no_pound)

lemma strip_currency_pound: "163 \<notin> set n \<Longrightarrow> strip_currency (pound @ n) = n"
  by (auto simp: strip_currency_filter pound_artifact_def pound_def str_replace_Cons
      str_replace_absent filter_id_conv)

lemma strip_currency_artifact: "163 \<notin> set n \<Longrightarrow> strip_currency (pound_artifact @ n) = n"
  by (auto simp: strip_currency_filter pound_artifact_def str_replace_Cons
      str_replace_absent filter_id_conv)


section \<open>Lemmas on the analyzer\<close>

lemma astype_float_all:
  "astype_float f ss =
     (if list_all (\<lambda>s. f s \<noteq> None) ss then Inr (map (\<lambda>s. the (f s)) ss) else Inl ValueError)"
  by (induction ss) (auto split: option.splits sum.splits)

lemma map2_with_numeric:
  "map2 with_numeric df (map (\<lambda>s. the (f s)) (map (\<lambda>b. strip_currency (price b)) df))
     = map (\<lambda>b. with_numeric b (the (f (strip_currency (price b))))) df"
  by (induction df) auto

lemma preprocess_all:
  "preprocess f df =
     (if list_all (\<lambda>b. f (strip_currency (price b)) \<noteq> None) df
      then Inr (map (\<lambda>b. with_numeric b (the (f (strip_currency (price b))))) df)
      else Inl ValueError)"
  by (simp add: preprocess_def astype_float_all list_all_iff map2_with_numeric del: map_map)

lemma rating_numeric_with [simp]: "rating_numeric (with_numeric b p) = map_rating (rating b)"
  and price_numeric_with [simp]: "price_numeric (with_numeric b p) = p"
  and title_with [simp]: "title (with_numeric b p) = title b"
  by (simp_all add: with_numeric_def raw_book.defs)

lemma map_rating_range: "map_rating tok = Val r \<Longrightarrow> 1 \<le> r \<and> r \<le> 5"
  by (auto simp: map_rating_def rm_def split: option.splits if_splits)

section \<open>Lemmas on the database\<close>

lemma execute_insert_Inl:
  "execute_insert db r = Inl e \<Longrightarrow> price_numeric r = NaN \<or> rating_numeric r = NaN"
  by (auto simp: execute_insert_def split: cell.splits)

lemma execute_insert_Inr:
  "execute_insert db r = Inr db' \<Longrightarrow>
     price_numeric r \<noteq> NaN \<and> rating_numeric r \<noteq> NaN \<and>
     map col_title (books_table db') = map col_title (books_table db) @ [title r]"
  by (auto simp: execute_insert_def split: cell.splits)

lemma insert_books_snd:
  "snd (insert_books rows db) =
     snd (insert_loop (set (map col_title (books_table db))) rows (0, db))"
  by (auto simp: insert_books_def Let_def split: prod.splits)

lemma insert_loop_ratings:
  "list_all (\<lambda>r. \<exists>b. rating_numeric r = map_rating b) rows \<Longrightarrow> ratings_ok db \<Longrightarrow>
   ratings_ok (snd (insert_loop E rows (c, db)))"
proof (induction rows arbitrary: c db)
  case Nil
  then show ?case by simp
next
  case (Cons r rows)
  show ?case
  proof (cases "execute_insert db r")
    case (Inl e)
    then show ?thesis using Cons by simp
  next
    case (Inr db')
    then have "ratings_ok db'" using Cons.prems
      by (auto simp: execute_insert_def ratings_ok_def split: cell.splits dest: map_rating_range)
    then show ?thesis using Cons Inr by simp
  qed
qed

lemma insert_books_ratings:
  "list_all (\<lambda>r. \<exists>b. rating_numeric r = map_rating b) rows \<Longrightarrow> ratings_ok db \<Longrightarrow>
   ratings_ok (snd (insert_books rows db))"
  unfolding insert_books_snd by (rule insert_loop_ratings)

lemma insert_loop_skip_all:
  "list_all (\<lambda>r. \<not> insertable E r) rows \<Longrightarrow> insert_loop E rows st = st"
proof (induction rows arbitrary: st)
  case Nil
  then show ?case by simp
next
  case (Cons r rows)
  obtain c db where st: "st = (c, db)" by (cases st)
  show ?case using Cons unfolding st
    by (auto simp: insertable_def split: sum.splits dest: execute_insert_Inr)
qed

lemma insert_loop_keeps:
  "t \<in> set (map col_title (books_table db)) \<Longrightarrow>
   t \<in> set (map col_title (books_table (snd (insert_loop E rows (c, db)))))"
proof (induction rows arbitrary: c db)
  case Nil
  then show ?case by simp
next
  case (Cons r rows)
  have skip: "t \<in> set (map col_title (books_table (snd (insert_loop E rows (c, db)))))"
    using Cons.IH[OF Cons.prems] .
  show ?case
  proof (cases "execute_insert db r")
    case (Inl e)
    then show ?thesis using skip by simp
  next
    case (Inr db')
    then have "t \<in> set (map col_title (books_table db'))"
      using Cons.prems execute_insert_Inr[OF Inr] by simp
    then have "t \<in> set (map col_title (books_table (snd (insert_loop E rows (c + 1, db')))))"
      by (rule Cons.IH)
    then show ?thesis using skip Inr by simp
  qed
qed

lemma insert_loop_titles:
  "r \<in> set rows \<Longrightarrow> insertable E r \<Longrightarrow>
   title r \<in> set (map col_title (books_table (snd (insert_loop E rows (c, db)))))"
proof (induction rows arbitrary: c db)
  case Nil
  then show ?case by simp
next
  case (Cons a rows)
  show ?case
  proof (cases "r = a")
    case True
    then obtain db' where ins: "execute_insert db a = Inr db'"
      using Cons.prems(2)
      by (cases "execute_insert db a") (auto simp: insertable_def dest: execute_insert_Inl)
    have "title r \<in> set (map col_title (books_table db'))"
      using execute_insert_Inr[OF ins] True by simp
    then show ?thesis
      using ins True Cons.prems(2) insert_loop_keeps[of "title r" db' E rows "c + 1"]
      by (simp add: insertable_def)
  next
    case False
    then have "r \<in> set rows" using Cons.prems by simp
    then show ?thesis using Cons.IH Cons.prems(2)
      by (cases "execute_insert db a") simp_all
  qed
qed

lemma insert_loop_again:
  "insert_loop (set (map col_title (books_table (snd (insert_books df db))))) df
     (0, snd (insert_books df db)) = (0, snd (insert_books df db))"
proof -
  let ?E = "set (map col_title (books_table db))"
  let ?db1 = "snd (insert_books df db)"
  let ?E1 = "set (map col_title (books_table ?db1))"
  have "list_all (\<lambda>r. \<not> insertable ?E1 r) df"
    unfolding list_all_iff
  proof
    fix r assume r: "r \<in> set df"
    show "\<not> insertable ?E1 r"
    proof
      assume ins: "insertable ?E1 r"
      have "title r \<notin> ?E"
        using ins insert_loop_keeps[of "title r" db ?E df 0]
        by (auto simp: insertable_def insert_books_snd)
      then have "insertable ?E r" using ins by (simp add: insertable_def)
      then have "title r \<in> ?E1"
        using insert_loop_titles[OF r, of ?E 0 db] by (simp add: insert_books_snd)
      then show False using ins by (simp add: insertable_def)
    qed
  qed
  then show ?thesis by (rule insert_loop_skip_all)
qed

section \<open>Lemmas on the scraper\<close>

lemma append_books_extract_all:
  "extract_all (base_url s) pods = Some rs \<Longrightarrow>
     append_books pods s = (None, s\<lparr>books := books s @ rs\<rparr>)"
proof (induction pods arbitrary: s rs)
  case Nil
  then show ?case by simp
next
  case (Cons b pods)
  then show ?case
    by (auto split: sum.splits option.splits)
qed

lemma scrape_page_records:
  assumes "page_outcome w (base_url s) i = Records rs"
  shows "scrape_books_from_page w i (s, lg) =
       (Inr True, s\<lparr>books := books s @ rs\<rparr>, lg @ [page_url (base_url s) i])"
proof -
  obtain body where g: "requests_get w (page_url (base_url s) i) = Response 200 body"
    and t: "body \<noteq> []" and p: "select_product_pods w body \<noteq> []"
    and e: "extract_all (base_url s) (select_product_pods w body) = Some rs"
    using assms
    by (auto simp: page_outcome_def simp del: extract_all.simps
        split: http_result.splits if_splits list.splits option.splits)
  show ?thesis
    by (simp add: scrape_books_from_page_def fetch_webpage_def g t p Let_def
        append_books_extract_all[OF e])
qed

lemma scrape_page_stop:
  "is_stop (page_outcome w (base_url s) i) \<Longrightarrow>
     scrape_books_from_page w i (s, lg) = (Inr False, s, lg @ [page_url (base_url s) i])"
  by (auto simp: page_outcome_def scrape_books_from_page_def fetch_webpage_def Let_def
      split: http_result.splits if_splits list.splits option.splits)

lemma scrape_loop_records:
  "list_all (\<lambda>i. is_records (page_outcome w (base_url s) i)) pages \<Longrightarrow>
     scrape_loop w (pages @ rest) (s, lg) =
       scrape_loop w rest
         (s\<lparr>books := books s @ concat (map (\<lambda>i. records_of (page_outcome w (base_url s) i)) pages)\<rparr>,
          lg @ map (page_url (base_url s)) pages)"
proof (induction pages arbitrary: s lg)
  case Nil
  then show ?case by simp
next
  case (Cons i pages)
  then obtain rs where rs: "page_outcome w (base_url s) i = Records rs"
    by (cases "page_outcome w (base_url s) i") auto
  let ?s = "s\<lparr>books := books s @ rs\<rparr>"
  have "list_all (\<lambda>i. is_records (page_outcome w (base_url ?s) i)) pages"
    using Cons.prems by simp
  from Cons.IH[OF this, of "lg @ [page_url (base_url s) i]"]
  show ?case by (simp add: scrape_page_records[OF rs] rs)
qed

lemma append_books_prefix:
  "append_books pods s = (e, s1) \<Longrightarrow>
     append_books pods (s\<lparr>books := bs @ books s\<rparr>) = (e, s1\<lparr>books := bs @ books s1\<rparr>)"
proof (induction pods arbitrary: s)
  case Nil
  then show ?case by auto
next
  case (Cons b pods)
  show ?case
  proof (cases "extract_book (base_url s) b")
    case (Inl x)
    then show ?thesis using Cons.prems by auto
  next
    case (Inr r)
    then have "append_books pods (s\<lparr>books := books s @ [r]\<rparr>) = (e, s1)"
      using Cons.prems by simp
    from Cons.IH[OF this] show ?thesis using Inr by simp
  qed
qed

lemma scrape_page_prefix:
  "scrape_books_from_page w i (s, lg) = (r, s1, lg1) \<Longrightarrow>
     scrape_books_from_page w i (s\<lparr>books := bs @ books s\<rparr>, lg0 @ lg) =
       (r, s1\<lparr>books := bs @ books s1\<rparr>, lg0 @ lg1)"
  by (auto simp: scrape_books_from_page_def fetch_webpage_def Let_def
      split: option.splits if_splits prod.splits dest: append_books_prefix[where bs = bs])

lemma scrape_loop_prefix:
  "scrape_loop w pages (s, lg) = (e, s1, lg1) \<Longrightarrow>
     scrape_loop w pages (s\<lparr>books := bs @ books s\<rparr>, lg0 @ lg) =
       (e, s1\<lparr>books := bs @ books s1\<rparr>, lg0 @ lg1)"
proof (induction pages arbitrary: s lg)
  case Nil
  then show ?case by auto
next
  case (Cons i pages)
  obtain r s' lg' where p: "scrape_books_from_page w i (s, lg) = (r, s', lg')"
    by (cases "scrape_books_from_page w i (s, lg)") auto
  note p' = scrape_page_prefix[OF p, of bs lg0]
  show ?case
  proof (cases r)
    case (Inl x)
    then show ?thesis using Cons.prems p p' by auto
  next
    case (Inr ok)
    show ?thesis
    proof (cases ok)
      case True
      then have "scrape_loop w pages (s', lg') = (e, s1, lg1)"
        using Cons.prems p Inr by simp
      from Cons.IH[OF this] show ?thesis using p p' Inr True by simp
    next
      case False
      then show ?thesis using Cons.prems p p' Inr by auto
    qed
  qed
qed

lemma scrape_multiple_pages_prefix:
  "scrape_multiple_pages w n (s, lg) = (res, s1, lg1) \<Longrightarrow>
     scrape_multiple_pages w n (s\<lparr>books := bs @ books s\<rparr>, lg0 @ lg) =
       (map_sum id ((@) bs) res, s1\<lparr>books := bs @ books s1\<rparr>, lg0 @ lg1)"
proof -
  assume a: "scrape_multiple_pages w n (s, lg) = (res, s1, lg1)"
  obtain e s' lg' where l: "scrape_loop w [1..n] (s, lg) = (e, s', lg')"
    by (cases "scrape_loop w [1..n] (s, lg)") auto
  show ?thesis
    using a l scrape_loop_prefix[OF l, of bs lg0]
    by (cases e) (auto simp: scrape_multiple_pages_def)
qed

lemma scrape_multiple_pages_returns_books:
  "scrape_multiple_pages w n st = (Inr r, s1, lg1) \<Longrightarrow> r = books s1"
  by (auto simp: scrape_multiple_pages_def split: prod.splits option.splits)

lemma scrape_multiple_pages_from_empty:
  assumes "scrape_multiple_pages w n (s, lg) = (res, s1, lg1)"
  shows "\<exists>new. books s1 = books s @ new \<and>
           fst (scrape_multiple_pages w n (s\<lparr>books := []\<rparr>, [])) = map_sum id (\<lambda>r. new) res"
proof -
  obtain res0 s0 lg0 where e: "scrape_multiple_pages w n (s\<lparr>books := []\<rparr>, []) = (res0, s0, lg0)"
    by (cases "scrape_multiple_pages w n (s\<lparr>books := []\<rparr>, [])") auto
  from scrape_multiple_pages_prefix[OF e, of "books s" lg]
  have "scrape_multiple_pages w n (s, lg) =
      (map_sum id ((@) (books s)) res0, s0\<lparr>books := books s @ books s0\<rparr>, lg @ lg0)"
    by simp
  with assms have r: "res = map_sum id ((@) (books s)) res0" and s1: "s1 = s0\<lparr>books := books s @ books s0\<rparr>"
    by simp_all
  have "map_sum id (\<lambda>r. books s0) res = res0"
  proof (cases res0)
    case (Inl x)
    then show ?thesis using r by simp
  next
    case (Inr x)
    then show ?thesis using r e scrape_multiple_pages_returns_books[of w n _ x s0 lg0] by simp
  qed
  then show ?thesis using s1 e by auto
qed

lemma upto_split_at:
  "0 \<le> k \<Longrightarrow> k < n \<Longrightarrow> [1..n] = [1..k] @ (k + 1) # [k + 2..n]"
proof -
  assume "0 \<le> k" "k < n"
  then have "[1..n] = [1..(k + 1) - 1] @ [k + 1..n]"
    by (intro upto_split1) auto
  also have "[k + 1..n] = (k + 1) # [k + 2..n]"
    using \<open>k < n\<close> by (simp add: upto_rec1 add.commute)
  finally show ?thesis by simp
qed

lemma page_urls:
  "page_url (base_url BookScraper_init) 1 = ascii ''http://books.toscrape.com/catalogue/page-1.html''"
  "page_url (base_url BookScraper_init) 2 = ascii ''http://books.toscrape.com/catalogue/page-2.html''"
  "page_url (base_url BookScraper_init) 3 = ascii ''http://books.toscrape.com/catalogue/page-3.html''"
  by (simp_all add: page_url_def str_int_def str_nat.simps BookScraper_init_def ascii_def)

lemma extract_pods:
  "extract_book (base_url BookScraper_init) pod_A = Inr raw_A"
  "extract_book (base_url BookScraper_init) pod_B = Inr raw_B"
  "extract_book (base_url BookScraper_init) pod_C = Inr raw_C"
  by (simp_all add: extract_book_def pod_A_def pod_B_def pod_C_def raw_A_def raw_B_def raw_C_def
      BookScraper_init_def str_strip_def py_isspace_def ascii_def)

lemma example_outcomes:
  "page_outcome example_web (base_url BookScraper_init) 1 = Records [raw_A, raw_B]"
  "page_outcome example_web (base_url BookScraper_init) 2 = Records [raw_C]"
  "page_outcome example_web (base_url BookScraper_init) 3 = NoRecords"
  "page_outcome offline_web (base_url BookScraper_init) 1 = FetchFailed"
  by (simp_all add: page_outcome_def page_urls extract_pods example_web_def offline_web_def ascii_def)

section \<open>Lemmas on sorting\<close>

lemma mset_insort_by: "mset (insort_by le x xs) = add_mset x (mset xs)"
  by (induction xs) auto

lemma set_insort_by: "set (insort_by le x xs) = insert x (set xs)"
  by (induction xs) auto

lemma sorted_insort_by:
  assumes total: "\<And>a b. le a b \<or> le b a" and trans: "\<And>a b c. le a b \<Longrightarrow> le b c \<Longrightarrow> le a c"
  shows "sorted_wrt le xs \<Longrightarrow> sorted_wrt le (insort_by le x xs)"
proof (induction xs)
  case Nil
  then show ?case by simp
next
  case (Cons y ys)
  show ?case
  proof (cases "le x y")
    case True
    then have "\<forall>z \<in> set ys. le x z" using Cons.prems trans by auto
    then show ?thesis using True Cons.prems by simp
  next
    case False
    then have "le y x" using total by blast
    then show ?thesis using False Cons by (auto simp: set_insort_by)
  qed
qed

lemma sorts_by_stable:
  assumes total: "\<And>a b. le a b \<or> le b a" and trans: "\<And>a b c. le a b \<Longrightarrow> le b c \<Longrightarrow> le a c"
  shows "sorts_by le (stable_sort_by le)"
proof -
  have "mset (foldr (insort_by le) xs []) = mset xs \<and> sorted_wrt le (foldr (insort_by le) xs [])" for xs
    by (induction xs) (auto simp: mset_insort_by intro: sorted_insort_by[OF total trans])
  then show ?thesis by (simp add: sorts_by_def stable_sort_by_def)
qed

lemma rating_desc_price_asc_total: "rating_desc_price_asc a b \<or> rating_desc_price_asc b a"
  by (auto simp: rating_desc_price_asc_def)

lemma rating_desc_price_asc_trans:
  "rating_desc_price_asc a b \<Longrightarrow> rating_desc_price_asc b c \<Longrightarrow> rating_desc_price_asc a c"
  by (auto simp: rating_desc_price_asc_def)





lemma sorts_by_mset: "sorts_by le srt \<Longrightarrow> mset (srt xs) = mset xs"
  and sorts_by_sorted: "sorts_by le srt \<Longrightarrow> sorted_wrt le (srt xs)"
  by (simp_all add: sorts_by_def)

lemma sorts_by_set: "sorts_by le srt \<Longrightarrow> set (srt xs) = set xs"
  by (metis sorts_by_mset set_mset_mset)

lemma sorts_by_length: "sorts_by le srt \<Longrightarrow> length (srt xs) = length xs"
  by (metis sorts_by_mset size_mset)




section \<open>Evaluation of the examples\<close>

lemmas ex_defs = raw_A_def raw_B_def raw_C_def raw_D_def raw_lowercase_rating_def
  raw_bad_price_def row_A_def row_B_def row_C_def row_D_def

lemmas eval_simps = preprocess_def BookDataAnalyzer_init_def strip_currency_pound
  strip_currency_artifact strip_currency_glyph_free decimal_float_def is_digit_def
  digits_value_def with_numeric_def raw_book.defs map_rating_def rm_def ascii_def
  insert_books_def BookDatabase_init_def execute_insert_def next_rowid_def ratings_ok_def

section \<open>Lemmas on the queries\<close>

lemma mset_stable_sort_by: "mset (stable_sort_by le xs) = mset xs"
  unfolding stable_sort_by_def by (induction xs) (simp_all add: mset_insort_by)

lemma set_stable_sort_by: "set (stable_sort_by le xs) = set xs"
  by (metis mset_stable_sort_by set_mset_mset)

lemma insort_three_key:
  "sorted_wrt rating_price_id ys \<Longrightarrow> \<forall>y \<in> set ys. col_id x \<le> col_id y \<Longrightarrow>
     sorted_wrt rating_price_id (insort_by rating_desc_price_asc x ys)"
proof (induction ys)
  case Nil
  then show ?case by simp
next
  case (Cons y ys)
  show ?case
  proof (cases "rating_desc_price_asc x y")
    case True
    have "rating_price_id x z" if "z \<in> set (y # ys)" for z
    proof -
      have "rating_desc_price_asc x z"
        using that True Cons.prems(1)
        by (auto simp: rating_desc_price_asc_def rating_price_id_def)
      moreover have "col_id x \<le> col_id z" using that Cons.prems(2) by auto
      ultimately show ?thesis
        by (auto simp: rating_desc_price_asc_def rating_price_id_def)
    qed
    then show ?thesis using True Cons.prems(1) by simp
  next
    case False
    then have "rating_price_id y x"
      by (auto simp: rating_desc_price_asc_def rating_price_id_def)
    moreover have "sorted_wrt rating_price_id (insort_by rating_desc_price_asc x ys)"
      using Cons by simp
    ultimately show ?thesis using False Cons.prems(1) by (simp add: set_insort_by)
  qed
qed

lemma stable_sort_three_key:
  "sorted_wrt (\<lambda>a b. col_id a \<le> col_id b) xs \<Longrightarrow>
     sorted_wrt rating_price_id (stable_sort_by rating_desc_price_asc xs)"
proof (induction xs)
  case Nil
  then show ?case by (simp add: stable_sort_by_def)
next
  case (Cons x xs)
  have "sorted_wrt rating_price_id (stable_sort_by rating_desc_price_asc xs)"
    using Cons by simp
  moreover have "\<forall>y \<in> set (stable_sort_by rating_desc_price_asc xs). col_id x \<le> col_id y"
    using Cons.prems by (simp add: set_stable_sort_by)
  ultimately have "sorted_wrt rating_price_id
      (insort_by rating_desc_price_asc x (stable_sort_by rating_desc_price_asc xs))"
    by (rule insort_three_key)
  then show ?case by (simp add: stable_sort_by_def)
qed

lemma table_scan_sorted: "sorted_wrt (\<lambda>a b. col_id a \<le> col_id b) (table_scan db)"
proof -
  have "sorts_by (\<lambda>a b :: 'a book. col_id a \<le> col_id b) (stable_sort_by (\<lambda>a b. col_id a \<le> col_id b))"
    by (rule sorts_by_stable) auto
  then show ?thesis unfolding table_scan_def by (rule sorts_by_sorted)
qed

lemma table_scan_mset: "mset (table_scan db) = mset (books_table db)"
  by (simp add: table_scan_def mset_stable_sort_by)

lemma where_clause_iff:
  "where_clause min_r max_p b =
     (min_r \<le> col_rating b \<and> (\<exists>m. max_p = Val m \<and> col_price b \<le> m))"
  by (cases max_p) (simp_all add: where_clause_def)

lemma search_in_range:
  "- (2 ^ 63) \<le> min_r \<Longrightarrow> min_r < 2 ^ 63 \<Longrightarrow>
     search min_r max_p db =
       Inr (map select_columns
              (stable_sort_by rating_desc_price_asc
                 (filter (where_clause min_r max_p) (table_scan db))))"
  by (simp add: search_def)

lemma search_rows_mset:
  "mset (map select_columns
           (stable_sort_by rating_desc_price_asc (filter (where_clause min_r max_p) (table_scan db)))) =
   mset (map (\<lambda>b. (col_id b, col_title b, col_price b, col_rating b, col_availability b))
           (filter (\<lambda>b. min_r \<le> col_rating b \<and> (\<exists>m. max_p = Val m \<and> col_price b \<le> m))
              (books_table db)))"
proof -
  have "mset (filter (where_clause min_r max_p) (table_scan db)) =
        mset (filter (where_clause min_r max_p) (books_table db))"
    by (simp add: table_scan_mset)
  moreover have "where_clause min_r max_p =
      (\<lambda>b. min_r \<le> col_rating b \<and> (\<exists>m. max_p = Val m \<and> col_price b \<le> m))"
    by (rule ext) (rule where_clause_iff)
  moreover have "select_columns =
      (\<lambda>b :: 'a book. (col_id b, col_title b, col_price b, col_rating b, col_availability b))"
    by (rule ext) (simp add: select_columns_def)
  ultimately show ?thesis
    by (simp add: mset_stable_sort_by)
qed

lemma search_rows_sorted:
  "sorted_wrt
     (\<lambda>(i, t, p, r, a) (i', t', p', r', a'). r' < r \<or> (r = r' \<and> (p < p' \<or> (p = p' \<and> i \<le> i'))))
     (map select_columns
        (stable_sort_by rating_desc_price_asc (filter (where_clause min_r max_p) (table_scan db))))"
proof -
  have "sorted_wrt (\<lambda>a b. col_id a \<le> col_id b) (filter (where_clause min_r max_p) (table_scan db))"
    by (rule sorted_wrt_filter) (rule table_scan_sorted)
  then have "sorted_wrt rating_price_id
      (stable_sort_by rating_desc_price_asc (filter (where_clause min_r max_p) (table_scan db)))"
    by (rule stable_sort_three_key)
  then show ?thesis
    by (auto simp: sorted_wrt_map select_columns_def rating_price_id_def
        elim!: sorted_wrt_mono_rel[rotated])
qed

lemma store_ABC:
  "snd (insert_books [row_A, row_B, row_C] (BookDatabase_init :: 'p::linordered_field BookDatabase)) =
      \<lparr>books_table =
         [\<lparr>col_id = 1, col_title = ascii ''A'', col_price = 15, col_rating = 5,
           col_availability = ascii ''In stock'',
           col_url = ascii ''http://books.toscrape.com/catalogue/a.html''\<rparr>,
          \<lparr>col_id = 2, col_title = ascii ''B'', col_price = 10, col_rating = 3,
           col_availability = ascii ''In stock'',
           col_url = ascii ''http://books.toscrape.com/catalogue/b.html''\<rparr>,
          \<lparr>col_id = 3, col_title = ascii ''C'', col_price = 18, col_rating = 4,
           col_availability = ascii ''In stock'',
           col_url = ascii ''http://books.toscrape.com/catalogue/c.html''\<rparr>],
       sqlite_sequence = 3\<rparr>"
  by (simp add: ex_defs eval_simps)

lemma store_ABCD:
  "snd (insert_books [row_A, row_B, row_C, row_D]
         (BookDatabase_init :: 'p::linordered_field BookDatabase)) =
      \<lparr>books_table =
         [\<lparr>col_id = 1, col_title = ascii ''A'', col_price = 15, col_rating = 5,
           col_availability = ascii ''In stock'',
           col_url = ascii ''http://books.toscrape.com/catalogue/a.html''\<rparr>,
          \<lparr>col_id = 2, col_title = ascii ''B'', col_price = 10, col_rating = 3,
           col_availability = ascii ''In stock'',
           col_url = ascii ''http://books.toscrape.com/catalogue/b.html''\<rparr>,
          \<lparr>col_id = 3, col_title = ascii ''C'', col_price = 18, col_rating = 4,
           col_availability = ascii ''In stock'',
           col_url = ascii ''http://books.toscrape.com/catalogue/c.html''\<rparr>,
          \<lparr>col_id = 4, col_title = ascii ''D'', col_price = 15, col_rating = 5,
           col_availability = ascii ''In stock'',
           col_url = ascii ''http://books.toscrape.com/catalogue/d.html''\<rparr>],
       sqlite_sequence = 4\<rparr>"
  by (simp add: ex_defs eval_simps)

lemmas search_eval = search_def table_scan_def stable_sort_by_def where_clause_def
  select_columns_def rating_desc_price_asc_def

lemma search_ABC:
  "search 4 (Val 20)
     (snd (insert_books [row_A, row_B, row_C] (BookDatabase_init :: rat BookDatabase))) =
   Inr [(1, ascii ''A'', 15, 5, ascii ''In stock''), (3, ascii ''C'', 18, 4, ascii ''In stock'')]"
  by (simp add: store_ABC search_eval)








section \<open>Claims on the analyzer's preprocessing\<close>

text \<open>
  Claim C1, as amended. \<^verbatim>\<open>_preprocess\<close> looks the rating token up in the five-word
  vocabulary, exactly and case-sensitively: One, Two, Three, Four, Five give 1 to 5.
  A token outside the vocabulary raises nothing: its \<open>rating_numeric\<close> is \<^verbatim>\<open>NaN\<close>, and
  \<^verbatim>\<open>_preprocess\<close> fails only where a price text does not parse. The record stays in the
  frame, with its title, and is handed to \<^verbatim>\<open>insert_books\<close>; there the insertion of a row
  without a rating is rejected by the \<^verbatim>\<open>NOT NULL\<close> column and skipped, so a table whose
  ratings are integers from 1 to 5 stays so.
\<close>

theorem rating_lookup_never_raises:
  "map_rating tok =
     (if tok = ascii ''One'' then Val 1 else if tok = ascii ''Two'' then Val 2
      else if tok = ascii ''Three'' then Val 3 else if tok = ascii ''Four'' then Val 4
      else if tok = ascii ''Five'' then Val 5 else NaN)
   \<and> (preprocess to_float df = Inl e \<longrightarrow>
        (\<exists>b \<in> set df. to_float (strip_currency (price b)) = None))
   \<and> (preprocess to_float df = Inr rows \<longrightarrow>
        map title rows = map title df \<and>
        map rating_numeric rows = map (\<lambda>b. map_rating (rating b)) df \<and>
        (ratings_ok db \<longrightarrow> ratings_ok (snd (insert_books rows db))))"
proof (intro conjI impI)
  show "map_rating tok =
     (if tok = ascii ''One'' then Val 1 else if tok = ascii ''Two'' then Val 2
      else if tok = ascii ''Three'' then Val 3 else if tok = ascii ''Four'' then Val 4
      else if tok = ascii ''Five'' then Val 5 else NaN)"
    by (simp add: map_rating_def rm_def)
next
  assume "preprocess to_float df = Inl e"
  then show "\<exists>b \<in> set df. to_float (strip_currency (price b)) = None"
    by (auto simp: preprocess_all list_all_iff split: if_splits)
next
  assume ok: "preprocess to_float df = Inr rows"
  then have rows: "rows = map (\<lambda>b. with_numeric b (the (to_float (strip_currency (price b))))) df"
    by (auto simp: preprocess_all split: if_splits)
  show "map title rows = map title df" by (simp add: rows)
  show "map rating_numeric rows = map (\<lambda>b. map_rating (rating b)) df" by (simp add: rows)
  assume "ratings_ok db"
  moreover have "list_all (\<lambda>r. \<exists>b. rating_numeric r = map_rating b) rows"
    by (auto simp: rows list_all_iff)
  ultimately show "ratings_ok (snd (insert_books rows db))"
    by (rule insert_books_ratings[rotated])
qed

theorem rating_lookup_never_raises_witness:
  "map_rating (ascii ''five'') = NaN
   \<and> preprocess decimal_float [raw_A, raw_lowercase_rating] =
       Inr [row_A, with_numeric raw_lowercase_rating (Val (5177 / 100))]
   \<and> map rating_numeric [row_A, with_numeric raw_lowercase_rating (Val (5177 / 100)) :: rat df_row]
       = [Val 5, NaN]
   \<and> ratings_ok (BookDatabase_init :: rat BookDatabase)
   \<and> ratings_ok (snd (insert_books [row_A, with_numeric raw_lowercase_rating (Val (5177 / 100))]
         (BookDatabase_init :: rat BookDatabase)))"
proof -
  have pre: "preprocess decimal_float [raw_A, raw_lowercase_rating] =
       Inr [row_A, with_numeric raw_lowercase_rating (Val (5177 / 100))]"
    by (simp add: ex_defs eval_simps)
  have ok: "ratings_ok (BookDatabase_init :: rat BookDatabase)"
    by (simp add: eval_simps)
  show ?thesis
    using rating_lookup_never_raises[of "ascii ''five''" decimal_float
        "[raw_A, raw_lowercase_rating]" ValueError
        "[row_A, with_numeric raw_lowercase_rating (Val (5177 / 100))]" BookDatabase_init]
      pre ok
    by (simp add: ex_defs ascii_def map_rating_def rm_def)
qed

text \<open>
  The claim as first stated fails: for the token \<^verbatim>\<open>five\<close>, which is outside the
  vocabulary, the analyzer is built without an error and its frame holds the record
  with the rating \<^verbatim>\<open>NaN\<close>.
\<close>

theorem unknown_rating_token_counterexample:
  "BookDataAnalyzer_init decimal_float [raw_lowercase_rating] =
     Inr [\<lparr>title = ascii ''L'', price = pound @ ascii ''51.77'',
           availability = ascii ''In stock'', rating = ascii ''five'', url = ascii ''l.html'',
           price_numeric = Val (5177 / 100), rating_numeric = NaN\<rparr>]"
  by (simp add: raw_lowercase_rating_def eval_simps)

text \<open>
  Claim C2, as amended. \<^verbatim>\<open>.astype(float)\<close> converts the whole column at once: when the
  price text of every record parses after the currency glyphs are stripped,
  \<^verbatim>\<open>_preprocess\<close> yields every record with its numeric columns; when the text of one
  record does not parse, it raises \<^verbatim>\<open>ValueError\<close> and no record of the batch is
  normalized.
\<close>

theorem preprocess_fails_as_a_whole:
  "preprocess to_float df =
     (if \<forall>b \<in> set df. to_float (strip_currency (price b)) \<noteq> None
      then Inr (map (\<lambda>b. with_numeric b (the (to_float (strip_currency (price b))))) df)
      else Inl ValueError)"
  by (simp add: preprocess_all list_all_iff)

theorem preprocess_fails_as_a_whole_witness:
  "preprocess decimal_float [raw_A, raw_bad_price, raw_B] = Inl ValueError
   \<and> preprocess decimal_float [raw_A, raw_B] = Inr [row_A, row_B]"
  using preprocess_fails_as_a_whole[of decimal_float "[raw_A, raw_bad_price, raw_B]"]
    preprocess_fails_as_a_whole[of decimal_float "[raw_A, raw_B]"]
  by (simp add: ex_defs eval_simps)

text \<open>
  The claim as first stated fails: a batch of one record with the price text
  \<^verbatim>\<open>\<pounds>abc\<close> and the well-formed record A gives no frame at all, although A alone is
  normalized.
\<close>

theorem bad_price_drops_batch_counterexample:
  "BookDataAnalyzer_init decimal_float [raw_bad_price, raw_A] = Inl ValueError
   \<and> BookDataAnalyzer_init decimal_float [raw_A] = Inr [row_A]"
  by (simp add: ex_defs eval_simps)



section \<open>Claims on the database\<close>

text \<open>
  Claim C4. Calling \<^verbatim>\<open>insert_books\<close> a second time with the same frame inserts nothing:
  the count it prints is 0 (an empty frame returns before printing) and the database is
  the one the first call left. After the first call the title of every row of the frame
  that has a price and a rating is in the table.
\<close>

theorem insert_books_twice:
  "insert_books df (snd (insert_books df db)) =
     (if df = [] then None else Some 0, snd (insert_books df db))
   \<and> (\<forall>r \<in> set df. price_numeric r \<noteq> NaN \<and> rating_numeric r \<noteq> NaN \<longrightarrow>
        title r \<in> set (map col_title (books_table (snd (insert_books df db)))))"
proof
  show "insert_books df (snd (insert_books df db)) =
     (if df = [] then None else Some 0, snd (insert_books df db))"
    using insert_loop_again[of df db]
    by (simp add: insert_books_def[of df "snd (insert_books df db)"])
next
  let ?E = "set (map col_title (books_table db))"
  show "\<forall>r \<in> set df. price_numeric r \<noteq> NaN \<and> rating_numeric r \<noteq> NaN \<longrightarrow>
        title r \<in> set (map col_title (books_table (snd (insert_books df db))))"
  proof (intro ballI impI)
    fix r assume r: "r \<in> set df" and v: "price_numeric r \<noteq> NaN \<and> rating_numeric r \<noteq> NaN"
    show "title r \<in> set (map col_title (books_table (snd (insert_books df db))))"
    proof (cases "title r \<in> ?E")
      case True
      then show ?thesis
        using insert_loop_keeps[of "title r" db ?E df 0] by (simp add: insert_books_snd)
    next
      case False
      then have "insertable ?E r" using v by (simp add: insertable_def)
      then show ?thesis
        using insert_loop_titles[OF r, of ?E 0 db] by (simp add: insert_books_snd)
    qed
  qed
qed

theorem insert_books_twice_witness:
  "insert_books [row_A, row_B, row_C] (BookDatabase_init :: rat BookDatabase) =
     (Some 3,
      \<lparr>books_table =
         [\<lparr>col_id = 1, col_title = ascii ''A'', col_price = 15, col_rating = 5,
           col_availability = ascii ''In stock'',
           col_url = ascii ''http://books.toscrape.com/catalogue/a.html''\<rparr>,
          \<lparr>col_id = 2, col_title = ascii ''B'', col_price = 10, col_rating = 3,
           col_availability = ascii ''In stock'',
           col_url = ascii ''http://books.toscrape.com/catalogue/b.html''\<rparr>,
          \<lparr>col_id = 3, col_title = ascii ''C'', col_price = 18, col_rating = 4,
           col_availability = ascii ''In stock'',
           col_url = ascii ''http://books.toscrape.com/catalogue/c.html''\<rparr>],
       sqlite_sequence = 3\<rparr>)
   \<and> insert_books [row_A, row_B, row_C]
        (snd (insert_books [row_A, row_B, row_C] (BookDatabase_init :: rat BookDatabase))) =
       (Some 0, snd (insert_books [row_A, row_B, row_C] BookDatabase_init))
   \<and> ascii ''B'' \<in> set (map col_title (books_table
        (snd (insert_books [row_A, row_B, row_C] (BookDatabase_init :: rat BookDatabase)))))"
proof -
  have first: "insert_books [row_A, row_B, row_C] (BookDatabase_init :: rat BookDatabase) =
     (Some 3,
      \<lparr>books_table =
         [\<lparr>col_id = 1, col_title = ascii ''A'', col_price = 15, col_rating = 5,
           col_availability = ascii ''In stock'',
           col_url = ascii ''http://books.toscrape.com/catalogue/a.html''\<rparr>,
          \<lparr>col_id = 2, col_title = ascii ''B'', col_price = 10, col_rating = 3,
           col_availability = ascii ''In stock'',
           col_url = ascii ''http://books.toscrape.com/catalogue/b.html''\<rparr>,
          \<lparr>col_id = 3, col_title = ascii ''C'', col_price = 18, col_rating = 4,
           col_availability = ascii ''In stock'',
           col_url = ascii ''http://books.toscrape.com/catalogue/c.html''\<rparr>],
       sqlite_sequence = 3\<rparr>)"
    by (simp add: ex_defs eval_simps)
  have "price_numeric row_B \<noteq> NaN \<and> rating_numeric row_B \<noteq> NaN"
    by (simp add: ex_defs eval_simps)
  then show ?thesis
    using insert_books_twice[of "[row_A, row_B, row_C]" "BookDatabase_init :: rat BookDatabase"] first
    by (simp add: ex_defs eval_simps)
qed

text \<open>
  Claim C5 at a failing input. \<^verbatim>\<open>insert_books\<close> reads the titles once, before its loop,
  and never adds to that set: a frame that holds the book A twice, inserted into the
  empty table, leaves two rows with the title A.
\<close>

theorem insert_books_duplicate_titles_in_batch:
  "insert_books [row_A, row_A] (BookDatabase_init :: rat BookDatabase) =
     (Some 2,
      \<lparr>books_table =
         [\<lparr>col_id = 1, col_title = ascii ''A'', col_price = 15, col_rating = 5,
           col_availability = ascii ''In stock'',
           col_url = ascii ''http://books.toscrape.com/catalogue/a.html''\<rparr>,
          \<lparr>col_id = 2, col_title = ascii ''A'', col_price = 15, col_rating = 5,
           col_availability = ascii ''In stock'',
           col_url = ascii ''http://books.toscrape.com/catalogue/a.html''\<rparr>],
       sqlite_sequence = 2\<rparr>)"
  by (simp add: ex_defs eval_simps)

text \<open>
  Claim C7, as amended. For every table, every \<open>min_r\<close> in the signed 64-bit range and
  every \<open>max_p\<close>, the query of \<^verbatim>\<open>search\<close> returns exactly the rows with rating at least
  \<open>min_r\<close> and price at most \<open>max_p\<close> (their five selected columns), ordered by rating
  descending, then price ascending, and rows that agree on both by ascending id. Over
  the table holding A (rating 5, price 15), B (rating 3, price 10) and C (rating 4,
  price 18) the query with \<open>min_r = 4\<close> and \<open>max_p = 20\<close> returns A, then C.
\<close>

theorem search_filters_and_orders:
  "- (2 ^ 63) \<le> min_r \<Longrightarrow> min_r < 2 ^ 63 \<Longrightarrow>
     (\<exists>res. search min_r max_p (db :: 'p::linorder BookDatabase) = Inr res
        \<and> mset res =
            mset (map (\<lambda>b. (col_id b, col_title b, col_price b, col_rating b, col_availability b))
                   (filter (\<lambda>b. min_r \<le> col_rating b \<and> (\<exists>m. max_p = Val m \<and> col_price b \<le> m))
                      (books_table db)))
        \<and> sorted_wrt
            (\<lambda>(i, t, p, r, a) (i', t', p', r', a').
                r' < r \<or> (r = r' \<and> (p < p' \<or> (p = p' \<and> i \<le> i'))))
            res)
   \<and> search 4 (Val 20)
        (snd (insert_books [row_A, row_B, row_C] (BookDatabase_init :: rat BookDatabase))) =
       Inr [(1, ascii ''A'', 15, 5, ascii ''In stock''), (3, ascii ''C'', 18, 4, ascii ''In stock'')]"
proof -
  assume r: "- (2 ^ 63) \<le> min_r" "min_r < 2 ^ 63"
  let ?res = "map select_columns
      (stable_sort_by rating_desc_price_asc (filter (where_clause min_r max_p) (table_scan db)))"
  have "search min_r max_p db = Inr ?res"
    by (rule search_in_range[OF r])
  moreover have "mset ?res =
      mset (map (\<lambda>b. (col_id b, col_title b, col_price b, col_rating b, col_availability b))
             (filter (\<lambda>b. min_r \<le> col_rating b \<and> (\<exists>m. max_p = Val m \<and> col_price b \<le> m))
                (books_table db)))"
    by (rule search_rows_mset)
  moreover have "sorted_wrt
      (\<lambda>(i, t, p, r, a) (i', t', p', r', a').
          r' < r \<or> (r = r' \<and> (p < p' \<or> (p = p' \<and> i \<le> i'))))
      ?res"
    by (rule search_rows_sorted)
  ultimately show ?thesis using search_ABC by blast
qed

text \<open>
  The witness runs the query on the table holding A, B, C and D, where D has the
  rating and the price of A and the bounds are met with equality by C: A (id 1) comes
  before D (id 4). It also runs a query whose price bound is infinite.
\<close>

theorem search_filters_and_orders_witness:
  "- (2 ^ 63) \<le> (4 :: int) \<and> (4 :: int) < 2 ^ 63
   \<and> search 4 (Val 18)
        (snd (insert_books [row_A, row_B, row_C, row_D] (BookDatabase_init :: rat BookDatabase))) =
       Inr [(1, ascii ''A'', 15, 5, ascii ''In stock''), (4, ascii ''D'', 15, 5, ascii ''In stock''),
            (3, ascii ''C'', 18, 4, ascii ''In stock'')]
   \<and> search 5 (Val PlusInf)
        \<lparr>books_table =
           [\<lparr>col_id = 1, col_title = ascii ''A'', col_price = PlusInf, col_rating = 5,
             col_availability = ascii ''In stock'', col_url = ascii ''a.html''\<rparr>,
            \<lparr>col_id = 2, col_title = ascii ''D'', col_price = Finite 15, col_rating = 5,
             col_availability = ascii ''In stock'', col_url = ascii ''d.html''\<rparr>],
         sqlite_sequence = 2\<rparr> =
       Inr [(2, ascii ''D'', Finite 15, 5, ascii ''In stock''),
            (1, ascii ''A'', PlusInf, 5, ascii ''In stock'')]"
proof -
  have r: "- (2 ^ 63) \<le> (4 :: int)" "(4 :: int) < 2 ^ 63" by simp_all
  have e: "search 4 (Val 18)
        (snd (insert_books [row_A, row_B, row_C, row_D] (BookDatabase_init :: rat BookDatabase))) =
       Inr [(1, ascii ''A'', 15, 5, ascii ''In stock''), (4, ascii ''D'', 15, 5, ascii ''In stock''),
            (3, ascii ''C'', 18, 4, ascii ''In stock'')]"
    by (simp add: store_ABCD search_eval)
  have x: "search 5 (Val PlusInf)
        \<lparr>books_table =
           [\<lparr>col_id = 1, col_title = ascii ''A'', col_price = PlusInf, col_rating = 5,
             col_availability = ascii ''In stock'', col_url = ascii ''a.html''\<rparr>,
            \<lparr>col_id = 2, col_title = ascii ''D'', col_price = Finite 15, col_rating = 5,
             col_availability = ascii ''In stock'', col_url = ascii ''d.html''\<rparr>],
         sqlite_sequence = 2\<rparr> =
       Inr [(2, ascii ''D'', Finite 15, 5, ascii ''In stock''),
            (1, ascii ''A'', PlusInf, 5, ascii ''In stock'')]"
    by (simp add: search_eval less_eq_xfloat_def)
  show ?thesis
    using r e x
      search_filters_and_orders[OF r, of "Val 18"
        "snd (insert_books [row_A, row_B, row_C, row_D] (BookDatabase_init :: rat BookDatabase))"]
    by simp
qed

text \<open>
  The claim as first stated, for every \<open>min_r\<close>, fails: the route accepts the number
  \<open>2 ^ 63\<close>, and binding it raises \<^verbatim>\<open>OverflowError\<close> instead of giving the rows (none)
  whose rating is at least that number.
\<close>

theorem search_overflow_counterexample:
  "search (2 ^ 63) (Val 20)
     (snd (insert_books [row_A, row_B, row_C] (BookDatabase_init :: rat BookDatabase))) =
   Inl OverflowError"
  by (simp add: search_def)

section \<open>Claims on the analyzer's queries\<close>



text \<open>
  Claim C9. On the empty frame \<^verbatim>\<open>get_summary_stats\<close> returns the dictionary whose only
  item is \<open>total_books = 0\<close>: no mean, minimum or maximum is computed.
\<close>

theorem get_summary_stats_empty:
  "get_summary_stats ([] :: 'p::linordered_field df_row list) = [(total_books, Count 0)]
   \<and> map_of (get_summary_stats ([] :: 'p df_row list)) total_books = Some (Count 0)
   \<and> map_of (get_summary_stats ([] :: 'p df_row list)) avg_price = None"
  by (simp add: get_summary_stats_def)

section \<open>Claims on the scraper\<close>

text \<open>
  Claim C3. Let \<open>maxPages\<close> be at least 1 and let a freshly constructed scraper find
  records on each of the pages 1 to \<open>k\<close>, where either \<open>k = maxPages\<close> or page \<open>k + 1\<close>
  is the first one whose fetch does not succeed or that has no records. Then
  \<^verbatim>\<open>scrape_multiple_pages(maxPages)\<close> returns exactly the records of the pages 1 to \<open>k\<close>,
  in page order and within a page in the order of the page, and the pages it requests
  are 1, 2, ... up to \<open>k + 1\<close> (up to \<open>maxPages\<close> when \<open>k = maxPages\<close>), in increasing
  order: page \<open>k + 2\<close> is never fetched, and with \<open>k = 0\<close> the result is empty.
\<close>

theorem scrape_multiple_pages_stops_at_first_gap:
  assumes "1 \<le> maxPages" and "0 \<le> k" and "k \<le> maxPages"
    and "\<forall>i \<in> {1..k}. is_records (page_outcome w (base_url BookScraper_init) i)"
    and "k = maxPages \<or> is_stop (page_outcome w (base_url BookScraper_init) (k + 1))"
  shows "scrape_multiple_pages w maxPages (BookScraper_init, []) =
     (Inr (concat (map (\<lambda>i. records_of (page_outcome w (base_url BookScraper_init) i)) [1..k])),
      BookScraper_init
        \<lparr>books := concat (map (\<lambda>i. records_of (page_outcome w (base_url BookScraper_init) i)) [1..k])\<rparr>,
      map (page_url (base_url BookScraper_init)) [1..min (k + 1) maxPages])"
proof -
  let ?s = "BookScraper_init"
  let ?recs = "concat (map (\<lambda>i. records_of (page_outcome w (base_url ?s) i)) [1..k])"
  have all: "list_all (\<lambda>i. is_records (page_outcome w (base_url ?s) i)) [1..k]"
    using assms(4) by (simp add: list_all_iff)
  have b0: "books ?s = []" by (simp add: BookScraper_init_def)
  have run: "scrape_loop w ([1..k] @ rest) (?s, []) =
      scrape_loop w rest (?s\<lparr>books := ?recs\<rparr>, map (page_url (base_url ?s)) [1..k])" for rest
    using scrape_loop_records[OF all, of rest "[]"] by (simp add: b0)
  show ?thesis
  proof (cases "k = maxPages")
    case True
    then show ?thesis using run[of "[]"] by (simp add: scrape_multiple_pages_def)
  next
    case False
    then have lt: "k < maxPages" and stop: "is_stop (page_outcome w (base_url ?s) (k + 1))"
      using assms(3,5) by auto
    have split: "[1..maxPages] = [1..k] @ (k + 1) # [k + 2..maxPages]"
      by (rule upto_split_at[OF assms(2) lt])
    have "base_url (?s\<lparr>books := ?recs\<rparr>) = base_url ?s" by simp
    with stop have pg: "scrape_books_from_page w (k + 1)
        (?s\<lparr>books := ?recs\<rparr>, map (page_url (base_url ?s)) [1..k]) =
        (Inr False, ?s\<lparr>books := ?recs\<rparr>,
         map (page_url (base_url ?s)) [1..k] @ [page_url (base_url ?s) (k + 1)])"
      using scrape_page_stop[of w "?s\<lparr>books := ?recs\<rparr>" "k + 1"] by simp
    have "[1..min (k + 1) maxPages] = [1..k] @ [k + 1]"
      using lt assms(2) by (simp add: min_def upto_rec2)
    then show ?thesis
      using run[of "(k + 1) # [k + 2..maxPages]"] pg
      by (simp add: scrape_multiple_pages_def split)
  qed
qed

theorem scrape_multiple_pages_stops_at_first_gap_witness:
  "scrape_multiple_pages example_web 5 (BookScraper_init, []) =
     (Inr [raw_A, raw_B, raw_C], BookScraper_init\<lparr>books := [raw_A, raw_B, raw_C]\<rparr>,
      [ascii ''http://books.toscrape.com/catalogue/page-1.html'',
       ascii ''http://books.toscrape.com/catalogue/page-2.html'',
       ascii ''http://books.toscrape.com/catalogue/page-3.html''])
   \<and> scrape_multiple_pages example_web 2 (BookScraper_init, []) =
     (Inr [raw_A, raw_B, raw_C], BookScraper_init\<lparr>books := [raw_A, raw_B, raw_C]\<rparr>,
      [ascii ''http://books.toscrape.com/catalogue/page-1.html'',
       ascii ''http://books.toscrape.com/catalogue/page-2.html''])
   \<and> scrape_multiple_pages offline_web 5 (BookScraper_init, []) =
     (Inr [], BookScraper_init\<lparr>books := []\<rparr>,
      [ascii ''http://books.toscrape.com/catalogue/page-1.html''])"
proof -
  have "{1..2::int} = {1, 2}" by auto
  then have r: "\<forall>i \<in> {1..2}. is_records (page_outcome example_web (base_url BookScraper_init) i)"
    by (simp add: example_outcomes)
  have r0: "\<forall>i \<in> {1..0}. is_records (page_outcome offline_web (base_url BookScraper_init) i)"
    by simp
  have l2: "[1..2::int] = [1, 2]" and l3: "[1..3::int] = [1, 2, 3]"
    by (simp_all add: upto_rec1)
  show ?thesis
    using scrape_multiple_pages_stops_at_first_gap[of 5 2 example_web, OF _ _ _ r]
      scrape_multiple_pages_stops_at_first_gap[of 2 2 example_web, OF _ _ _ r]
      scrape_multiple_pages_stops_at_first_gap[of 5 0 offline_web, OF _ _ _ r0]
    by (simp add: example_outcomes page_urls l2 l3)
qed

text \<open>
  Claim C10. \<^verbatim>\<open>scrape_multiple_pages\<close> never removes a record: whatever its outcome,
  the list of the instance afterwards is the list before followed by new records, and
  the value it returns is that whole list. So when two calls on the same instance
  return, the second returns the records of the first followed by exactly what the
  second call returns on an instance with an empty list.
\<close>

theorem scrape_multiple_pages_accumulates:
  "(scrape_multiple_pages w n (s, lg) = (res, s', lg') \<longrightarrow>
      (\<exists>new. books s' = books s @ new) \<and> (\<forall>r. res = Inr r \<longrightarrow> r = books s'))
   \<and> (scrape_multiple_pages w1 n1 (s0, lg0) = (Inr r1, s1, lg1) \<and>
       scrape_multiple_pages w2 n2 (s1, lg1) = (Inr r2, s2, lg2) \<longrightarrow>
        (\<exists>new. r2 = r1 @ new \<and>
           fst (scrape_multiple_pages w2 n2 (s1\<lparr>books := []\<rparr>, [])) = Inr new))"
proof (intro conjI impI)
  assume a: "scrape_multiple_pages w n (s, lg) = (res, s', lg')"
  show "\<exists>new. books s' = books s @ new"
    using scrape_multiple_pages_from_empty[OF a] by blast
  show "\<forall>r. res = Inr r \<longrightarrow> r = books s'"
    using a scrape_multiple_pages_returns_books by blast
next
  assume b: "scrape_multiple_pages w1 n1 (s0, lg0) = (Inr r1, s1, lg1) \<and>
       scrape_multiple_pages w2 n2 (s1, lg1) = (Inr r2, s2, lg2)"
  then have r1: "r1 = books s1" and r2: "r2 = books s2"
    using scrape_multiple_pages_returns_books by blast+
  from b scrape_multiple_pages_from_empty[of w2 n2 s1 lg1 "Inr r2" s2 lg2]
  obtain new where "books s2 = books s1 @ new"
    and "fst (scrape_multiple_pages w2 n2 (s1\<lparr>books := []\<rparr>, [])) = Inr new"
    by auto
  then show "\<exists>new. r2 = r1 @ new \<and>
           fst (scrape_multiple_pages w2 n2 (s1\<lparr>books := []\<rparr>, [])) = Inr new"
    using r1 r2 by blast
qed

theorem scrape_multiple_pages_accumulates_witness:
  "scrape_multiple_pages example_web 1 (BookScraper_init, []) =
     (Inr [raw_A, raw_B], BookScraper_init\<lparr>books := [raw_A, raw_B]\<rparr>,
      [ascii ''http://books.toscrape.com/catalogue/page-1.html''])
   \<and> scrape_multiple_pages example_web 1
       (BookScraper_init\<lparr>books := [raw_A, raw_B]\<rparr>,
        [ascii ''http://books.toscrape.com/catalogue/page-1.html'']) =
     (Inr [raw_A, raw_B, raw_A, raw_B], BookScraper_init\<lparr>books := [raw_A, raw_B, raw_A, raw_B]\<rparr>,
      [ascii ''http://books.toscrape.com/catalogue/page-1.html'',
       ascii ''http://books.toscrape.com/catalogue/page-1.html''])
   \<and> (\<exists>new. [raw_A, raw_B, raw_A, raw_B] = [raw_A, raw_B] @ new \<and>
        fst (scrape_multiple_pages example_web 1
              (BookScraper_init\<lparr>books := [raw_A, raw_B], books := []\<rparr>, [])) = Inr new)"
proof -
  have o: "page_outcome example_web (base_url (BookScraper_init\<lparr>books := bs\<rparr>)) 1 = Records [raw_A, raw_B]" for bs
    using example_outcomes(1) by simp
  have u: "page_url (base_url (BookScraper_init\<lparr>books := bs\<rparr>)) 1 =
      ascii ''http://books.toscrape.com/catalogue/page-1.html''" for bs
    using page_urls(1) by simp
  have b0: "books BookScraper_init = []" by (simp add: BookScraper_init_def)
  have first: "scrape_multiple_pages example_web 1 (BookScraper_init, []) =
     (Inr [raw_A, raw_B], BookScraper_init\<lparr>books := [raw_A, raw_B]\<rparr>,
      [ascii ''http://books.toscrape.com/catalogue/page-1.html''])"
    by (simp add: scrape_multiple_pages_def scrape_page_records[OF example_outcomes(1)] page_urls b0)
  have second: "scrape_multiple_pages example_web 1
       (BookScraper_init\<lparr>books := [raw_A, raw_B]\<rparr>,
        [ascii ''http://books.toscrape.com/catalogue/page-1.html'']) =
     (Inr [raw_A, raw_B, raw_A, raw_B], BookScraper_init\<lparr>books := [raw_A, raw_B, raw_A, raw_B]\<rparr>,
      [ascii ''http://books.toscrape.com/catalogue/page-1.html'',
       ascii ''http://books.toscrape.com/catalogue/page-1.html''])"
    by (simp add: scrape_multiple_pages_def scrape_page_records[OF o] u page_urls)
  show ?thesis
    using first second
      scrape_multiple_pages_accumulates[of example_web 1 BookScraper_init "[]" "Inr [raw_A, raw_B]"
        "BookScraper_init\<lparr>books := [raw_A, raw_B]\<rparr>"
        "[ascii ''http://books.toscrape.com/catalogue/page-1.html'']"
        example_web 1 BookScraper_init "[]" "[raw_A, raw_B]"
        "BookScraper_init\<lparr>books := [raw_A, raw_B]\<rparr>"
        "[ascii ''http://books.toscrape.com/catalogue/page-1.html'']"
        example_web 1 "[raw_A, raw_B, raw_A, raw_B]"
        "BookScraper_init\<lparr>books := [raw_A, raw_B, raw_A, raw_B]\<rparr>"
        "[ascii ''http://books.toscrape.com/catalogue/page-1.html'',
          ascii ''http://books.toscrape.com/catalogue/page-1.html'']"]
    by simp
qed

end
